theory Spec2Isabelle
  imports Complex_Main "HOL-Library.Stream"
begin

section \<open>Data model\<close>

text \<open>
  The embedding follows \<^verbatim>\<open>main.go\<close> (\<^verbatim>\<open>correrMPI\<close>, \<^verbatim>\<open>correrOpenMP\<close>, \<^verbatim>\<open>wsHandler\<close>);
  \<^verbatim>\<open>runMPI\<close>, \<^verbatim>\<open>runOpenMP\<close> of the English-named variant are the same code up to
  identifiers and to how a record reaches the connection.

  \<^verbatim>\<open>MensajeWS.Tipo\<close> and \<^verbatim>\<open>MensajeWS.Topico\<close> are strings in the source, but only the
  literals below are ever stored in them. \<^verbatim>\<open>Texto\<close> is always a literal or the result of
  one \<^verbatim>\<open>fmt.Sprintf\<close>; it is kept as the format together with its arguments.
  Go's \<^verbatim>\<open>int\<close> is modelled by the unbounded integers: the loop counters count up from 1 to
  a bound, and would need 2^63 iterations to wrap.
  A \<^verbatim>\<open>float64\<close> duration \<^verbatim>\<open>float64(k) / 100.0\<close> is modelled by the rational k / 100.
\<close>

datatype tipo = registro | resumen | finalizado

datatype topico = sin_topico | mpi | openmp

record ResultadoOpenMP =
  AutoID :: int
  MejorVuelta :: rat
  CantidadVueltas :: int

datatype texto =
    sin_texto
  | ErrorSectores
  | IniciandoMPI int int
  | CabeceraVuelta int
  | TiempoSector int rat int
  | ErrorAutos
  | IniciandoOpenMP int int
  | VueltaAuto int int rat
  | NuevaMejorVuelta int rat
  | ComandoNoReconocido string

datatype obj =
    sin_obj
  | MPIFinalizado
  | MejoresOpenMP "ResultadoOpenMP list" ResultadoOpenMP

record MensajeWS =
  Tipo :: tipo
  Topico :: topico
  Texto :: texto
  Obj :: obj

definition mensaje :: "tipo \<Rightarrow> topico \<Rightarrow> texto \<Rightarrow> MensajeWS" where
  "mensaje ti tp tx = \<lparr>Tipo = ti, Topico = tp, Texto = tx, Obj = sin_obj\<rparr>"

definition mensaje_obj :: "tipo \<Rightarrow> topico \<Rightarrow> obj \<Rightarrow> MensajeWS" where
  "mensaje_obj ti tp ob = \<lparr>Tipo = ti, Topico = tp, Texto = sin_texto, Obj = ob\<rparr>"

subsection \<open>The channel \<^verbatim>\<open>enviar\<close>\<close>

text \<open>
  \<^verbatim>\<open>enviar := make(chan MensajeWS, 100)\<close> has one consumer, the goroutine that writes
  every record to the connection. \<open>cola\<close> is the sequence of records the channel has
  accepted, in arrival order; that a full buffer makes the sender wait for the consumer
  changes neither this order nor the records. \<^verbatim>\<open>defer close(enviar)\<close> sets \<open>cerrado\<close>.
  In Go a send on a closed channel panics.
\<close>

record canal =
  cola :: "MensajeWS list"
  cerrado :: bool

datatype panic = SendOnClosedChannel

definition chan_send :: "MensajeWS \<Rightarrow> canal \<Rightarrow> panic + canal" where
  "chan_send m ch =
     (if cerrado ch then Inl SendOnClosedChannel else Inr (ch\<lparr>cola := cola ch @ [m]\<rparr>))"

definition chan_close :: "canal \<Rightarrow> canal" where
  "chan_close ch = ch\<lparr>cerrado := True\<rparr>"

definition seguir :: "panic + 'a \<Rightarrow> ('a \<Rightarrow> panic + 'b) \<Rightarrow> panic + 'b" where
  "seguir r f = (case r of Inl p \<Rightarrow> Inl p | Inr x \<Rightarrow> f x)"

subsection \<open>The random source\<close>

text \<open>
  \<^verbatim>\<open>math/rand\<close> is not part of the repository. Its source is taken as a parameter, a
  stream of arbitrary naturals, and \<^verbatim>\<open>rand.Intn(n)\<close> is modelled by its documented
  contract: for \<open>n > 0\<close> it returns an integer of the half-open interval \<open>[0, n)\<close> and
  advances the source.
\<close>

definition Intn :: "int \<Rightarrow> nat stream \<Rightarrow> int \<times> nat stream" where
  "Intn n g = (int (shd g) mod n, stl g)"

section \<open>correrMPI\<close>

function sector_loop ::
  "int \<Rightarrow> int \<Rightarrow> int \<Rightarrow> nat stream \<Rightarrow> canal \<Rightarrow> panic + (nat stream \<times> canal)" where
  "sector_loop s sectores v g ch =
     (if s \<le> sectores then
        (let (r, g') = Intn 2300 g;
             tiempoSector = of_int (r + 1200) / 100
         in seguir (chan_send (mensaje registro mpi (TiempoSector s tiempoSector v)) ch)
              (\<lambda>ch'. sector_loop (s + 1) sectores v g' ch'))
      else Inr (g, ch))"
  by pat_completeness auto
termination
  by (relation "measure (\<lambda>(s, sectores, v, g, ch). nat (sectores + 1 - s))") auto

function vuelta_loop ::
  "int \<Rightarrow> int \<Rightarrow> int \<Rightarrow> nat stream \<Rightarrow> canal \<Rightarrow> panic + (nat stream \<times> canal)" where
  "vuelta_loop v vueltas sectores g ch =
     (if v \<le> vueltas then
        seguir (chan_send (mensaje registro mpi (CabeceraVuelta v)) ch)
          (\<lambda>ch1. seguir (sector_loop 1 sectores v g ch1)
             (\<lambda>(g', ch2). vuelta_loop (v + 1) vueltas sectores g' ch2))
      else Inr (g, ch))"
  by pat_completeness auto
termination
  by (relation "measure (\<lambda>(v, vueltas, sectores, g, ch). nat (vueltas + 1 - v))") auto

definition correrMPI ::
  "int \<Rightarrow> int \<Rightarrow> nat stream \<Rightarrow> canal \<Rightarrow> panic + (nat stream \<times> canal)" where
  "correrMPI sectores vueltas g enviar =
     (if sectores < 1 then
        seguir (chan_send (mensaje registro mpi ErrorSectores) enviar)
          (\<lambda>ch1. seguir (chan_send (mensaje finalizado mpi sin_texto) ch1)
             (\<lambda>ch2. Inr (g, ch2)))
      else
        (let vueltas = (if vueltas < 1 then 1 else vueltas) in
         seguir (chan_send (mensaje registro mpi (IniciandoMPI sectores vueltas)) enviar)
           (\<lambda>ch1. seguir (vuelta_loop 1 vueltas sectores g ch1)
              (\<lambda>(g', ch2). seguir (chan_send (mensaje_obj resumen mpi MPIFinalizado) ch2)
                 (\<lambda>ch3. seguir (chan_send (mensaje finalizado mpi sin_texto) ch3)
                    (\<lambda>ch4. Inr (g', ch4)))))))"

text \<open>The records a run has added to a channel that held \<open>k\<close> records when it started.\<close>

definition emitidos :: "nat \<Rightarrow> canal \<Rightarrow> MensajeWS list" where
  "emitidos k ch = drop k (cola ch)"

definition es_sector :: "MensajeWS \<Rightarrow> bool" where
  "es_sector m = (Tipo m = registro \<and> Topico m = mpi \<and>
     (case Texto m of TiempoSector s t v \<Rightarrow> True | _ \<Rightarrow> False))"

definition es_cabecera :: "MensajeWS \<Rightarrow> bool" where
  "es_cabecera m = (Tipo m = registro \<and> Topico m = mpi \<and>
     (case Texto m of CabeceraVuelta v \<Rightarrow> True | _ \<Rightarrow> False))"

definition es_inicio :: "MensajeWS \<Rightarrow> bool" where
  "es_inicio m = (Tipo m = registro \<and>
     (case Texto m of IniciandoMPI s v \<Rightarrow> True | IniciandoOpenMP a v \<Rightarrow> True | _ \<Rightarrow> False))"

definition es_resumen :: "MensajeWS \<Rightarrow> bool" where
  "es_resumen m = (Tipo m = resumen)"

definition es_finalizado :: "MensajeWS \<Rightarrow> bool" where
  "es_finalizado m = (Tipo m = finalizado)"

definition dos_decimales :: "rat \<Rightarrow> bool" where
  "dos_decimales t = (of_int \<lfloor>100 * t\<rfloor> = 100 * t)"

definition es_otro :: "MensajeWS \<Rightarrow> bool" where
  "es_otro m = (\<not> (es_inicio m \<or> es_sector m \<or> es_resumen m \<or> es_finalizado m))"

definition tiempo_sector_ok :: "MensajeWS \<Rightarrow> bool" where
  "tiempo_sector_ok m = (case Texto m of
      TiempoSector s t v \<Rightarrow> 12 \<le> t \<and> t \<le> 3499 / 100 \<and> dos_decimales t
    | _ \<Rightarrow> True)"

definition vueltas_efectivas :: "int \<Rightarrow> int" where
  "vueltas_efectivas vueltas = (if vueltas < 1 then 1 else vueltas)"

section \<open>correrOpenMP\<close>

text \<open>
  Every car is a goroutine. Its body is cut at the operations other goroutines can
  observe: the draw from the shared random source, each send on \<^verbatim>\<open>enviar\<close>, the store
  into \<^verbatim>\<open>resultados[autoID]\<close> and the deferred send on \<^verbatim>\<open>done\<close>. \<open>pc\<close> names the next
  such operation of a car:
  \<^item> \<open>Bucle\<close>: the loop test \<^verbatim>\<open>v <= vueltas\<close> and, inside the loop, the draw of
    \<^verbatim>\<open>tiempoVuelta\<close> (followed by the sleep);
  \<^item> \<open>EnviarVuelta\<close>: the send of the lap record, then the test
    \<^verbatim>\<open>tiempoVuelta < mejor\<close> and the assignment to \<^verbatim>\<open>mejor\<close>;
  \<^item> \<open>EnviarMejor\<close>: the send of the new-best record, then \<^verbatim>\<open>v++\<close>;
  \<^item> \<open>Guardar\<close>: the store into \<^verbatim>\<open>resultados[autoID]\<close>;
  \<^item> \<open>Avisar\<close>: the deferred \<^verbatim>\<open>done <- struct{}{}\<close>, received by the waiting loop of
    \<^verbatim>\<open>correrOpenMP\<close> (\<^verbatim>\<open>wg.Done()\<close> in the variant with a wait group);
  \<^item> \<open>Fin\<close>: the goroutine has returned.
\<close>

datatype pc = Bucle | EnviarVuelta | EnviarMejor | Guardar | Avisar | Fin

record auto_st =
  pc :: pc
  v_local :: int
  mejor :: rat
  tiempoVuelta :: rat

record estado =
  autos :: "auto_st list"
  resultados :: "ResultadoOpenMP list"
  done_recibidos :: nat
  fuente :: "nat stream"
  canal_enviar :: canal

definition poner_auto :: "nat \<Rightarrow> auto_st \<Rightarrow> estado \<Rightarrow> estado" where
  "poner_auto i a st = st\<lparr>autos := (autos st)[i := a]\<rparr>"

text \<open>
  One step of the goroutine \<open>autoID\<close>. An index that names no goroutine, and a goroutine
  that has returned, leave the state as it is.
\<close>

definition paso :: "int \<Rightarrow> nat \<Rightarrow> estado \<Rightarrow> panic + estado" where
  "paso vueltas autoID st =
     (if length (autos st) \<le> autoID then Inr st
      else
        (let a = autos st ! autoID in
         case pc a of
           Bucle \<Rightarrow>
             (if v_local a \<le> vueltas then
                (let (r, g') = Intn 2099 (fuente st);
                     t = of_int (r + 7500) / 100
                 in Inr (poner_auto autoID (a\<lparr>pc := EnviarVuelta, tiempoVuelta := t\<rparr>)
                           (st\<lparr>fuente := g'\<rparr>)))
              else Inr (poner_auto autoID (a\<lparr>pc := Guardar\<rparr>) st))
         | EnviarVuelta \<Rightarrow>
             seguir (chan_send (mensaje registro openmp
                        (VueltaAuto (int autoID + 1) (v_local a) (tiempoVuelta a)))
                      (canal_enviar st))
               (\<lambda>ch'. if tiempoVuelta a < mejor a
                  then Inr (poner_auto autoID (a\<lparr>pc := EnviarMejor, mejor := tiempoVuelta a\<rparr>)
                              (st\<lparr>canal_enviar := ch'\<rparr>))
                  else Inr (poner_auto autoID (a\<lparr>pc := Bucle, v_local := v_local a + 1\<rparr>)
                              (st\<lparr>canal_enviar := ch'\<rparr>)))
         | EnviarMejor \<Rightarrow>
             seguir (chan_send (mensaje registro openmp
                        (NuevaMejorVuelta (int autoID + 1) (mejor a)))
                      (canal_enviar st))
               (\<lambda>ch'. Inr (poner_auto autoID (a\<lparr>pc := Bucle, v_local := v_local a + 1\<rparr>)
                              (st\<lparr>canal_enviar := ch'\<rparr>)))
         | Guardar \<Rightarrow>
             Inr (poner_auto autoID (a\<lparr>pc := Avisar\<rparr>)
                    (st\<lparr>resultados := (resultados st)
                          [autoID := \<lparr>AutoID = int autoID + 1, MejorVuelta = mejor a,
                                      CantidadVueltas = vueltas\<rparr>]\<rparr>))
         | Avisar \<Rightarrow>
             Inr (poner_auto autoID (a\<lparr>pc := Fin\<rparr>)
                    (st\<lparr>done_recibidos := done_recibidos st + 1\<rparr>))
         | Fin \<Rightarrow> Inr st))"

text \<open>
  An execution of the goroutines is given by its schedule \<open>plan\<close>: the list of the
  goroutines' indices in the order in which they take their steps.
\<close>

fun ejecutar :: "int \<Rightarrow> nat list \<Rightarrow> estado \<Rightarrow> panic + estado" where
  "ejecutar vueltas [] st = Inr st"
| "ejecutar vueltas (i # plan) st = seguir (paso vueltas i st) (ejecutar vueltas plan)"

definition estado_inicial :: "int \<Rightarrow> nat stream \<Rightarrow> canal \<Rightarrow> estado" where
  "estado_inicial cantidadAutos g ch =
     \<lparr>autos = replicate (nat cantidadAutos)
                \<lparr>pc = Bucle, v_local = 1, mejor = 1000000000, tiempoVuelta = 0\<rparr>,
      resultados = replicate (nat cantidadAutos)
                \<lparr>AutoID = 0, MejorVuelta = 0, CantidadVueltas = 0\<rparr>,
      done_recibidos = 0,
      fuente = g,
      canal_enviar = ch\<rparr>"

fun elegir_mejor :: "ResultadoOpenMP \<Rightarrow> ResultadoOpenMP list \<Rightarrow> ResultadoOpenMP" where
  "elegir_mejor mg [] = mg"
| "elegir_mejor mg (r # rs) =
     elegir_mejor (if MejorVuelta r < MejorVuelta mg then r else mg) rs"

definition mejorGeneral :: "ResultadoOpenMP list \<Rightarrow> ResultadoOpenMP" where
  "mejorGeneral rs =
     elegir_mejor \<lparr>AutoID = - 1, MejorVuelta = 1000000000, CantidadVueltas = 0\<rparr> rs"

text \<open>
  The outcome of \<^verbatim>\<open>correrOpenMP\<close> under a schedule: \<open>Rechazada\<close> when it returns before
  any goroutine or table exists, \<open>EnBarrera\<close> when the schedule ends while
  \<^verbatim>\<open>correrOpenMP\<close> still waits for a car, \<open>Completa\<close> when it has returned after the
  summary.
\<close>

datatype salida = Rechazada canal | EnBarrera estado | Completa estado

definition correrOpenMP ::
  "int \<Rightarrow> int \<Rightarrow> nat list \<Rightarrow> nat stream \<Rightarrow> canal \<Rightarrow> panic + salida" where
  "correrOpenMP cantidadAutos vueltas plan g enviar =
     (if cantidadAutos < 1 then
        seguir (chan_send (mensaje registro openmp ErrorAutos) enviar)
          (\<lambda>ch1. seguir (chan_send (mensaje finalizado openmp sin_texto) ch1)
             (\<lambda>ch2. Inr (Rechazada ch2)))
      else
        (let vueltas = (if vueltas < 1 then 1 else vueltas) in
         seguir (chan_send (mensaje registro openmp (IniciandoOpenMP cantidadAutos vueltas)) enviar)
           (\<lambda>ch1. seguir (ejecutar vueltas plan (estado_inicial cantidadAutos g ch1))
              (\<lambda>st. if done_recibidos st < nat cantidadAutos then Inr (EnBarrera st)
                 else
                   seguir (chan_send (mensaje_obj resumen openmp
                              (MejoresOpenMP (resultados st) (mejorGeneral (resultados st))))
                            (canal_enviar st))
                     (\<lambda>ch2. seguir (chan_send (mensaje finalizado openmp sin_texto) ch2)
                        (\<lambda>ch3. Inr (Completa (st\<lparr>canal_enviar := ch3\<rparr>))))))))"

definition canal_de :: "salida \<Rightarrow> canal" where
  "canal_de sal = (case sal of Rechazada ch \<Rightarrow> ch
     | EnBarrera st \<Rightarrow> canal_enviar st | Completa st \<Rightarrow> canal_enviar st)"

subsection \<open>What the records say about one car\<close>

definition tiempo_de :: "int \<Rightarrow> MensajeWS \<Rightarrow> rat list" where
  "tiempo_de a m = (case Texto m of
      VueltaAuto a' v t \<Rightarrow> (if a' = a then [t] else [])
    | _ \<Rightarrow> [])"

definition tiempos_de :: "int \<Rightarrow> MensajeWS list \<Rightarrow> rat list" where
  "tiempos_de a ms = concat (map (tiempo_de a) ms)"

definition nueva_mejor_de :: "int \<Rightarrow> MensajeWS \<Rightarrow> rat list" where
  "nueva_mejor_de a m = (case Texto m of
      NuevaMejorVuelta a' t \<Rightarrow> (if a' = a then [t] else [])
    | _ \<Rightarrow> [])"

definition mejores_de :: "int \<Rightarrow> MensajeWS list \<Rightarrow> rat list" where
  "mejores_de a ms = concat (map (nueva_mejor_de a) ms)"

definition tiempo_vuelta_ok :: "rat \<Rightarrow> bool" where
  "tiempo_vuelta_ok t = (75 \<le> t \<and> t \<le> 9598 / 100 \<and> dos_decimales t)"

definition registro_ok :: "MensajeWS \<Rightarrow> bool" where
  "registro_ok m = (Obj m = sin_obj \<and>
     (case Texto m of VueltaAuto a v t \<Rightarrow> tiempo_vuelta_ok t | _ \<Rightarrow> True))"

definition minimo :: "rat list \<Rightarrow> rat" where
  "minimo ts = foldl min 1000000000 ts"

subsection \<open>Invariant of the goroutines and bound on their steps\<close>

definition inv_auto ::
  "int \<Rightarrow> nat \<Rightarrow> auto_st \<Rightarrow> ResultadoOpenMP \<Rightarrow> MensajeWS list \<Rightarrow> bool" where
  "inv_auto vueltas i a r ms =
     (let ts = tiempos_de (int i + 1) ms; bs = mejores_de (int i + 1) ms in
      (\<forall>t\<in>set ts. tiempo_vuelta_ok t) \<and>
      (bs \<noteq> [] \<longrightarrow> ts \<noteq> [] \<and> hd bs = hd ts) \<and>
      length bs \<le> length ts \<and>
      mejor a = minimo ts \<and>
      (case pc a of
         Bucle \<Rightarrow> 1 \<le> v_local a \<and> v_local a \<le> vueltas + 1 \<and>
            int (length ts) = v_local a - 1 \<and> (ts \<noteq> [] \<longrightarrow> bs \<noteq> [])
       | EnviarVuelta \<Rightarrow> 1 \<le> v_local a \<and> v_local a \<le> vueltas \<and>
            int (length ts) = v_local a - 1 \<and> (ts \<noteq> [] \<longrightarrow> bs \<noteq> []) \<and>
            tiempo_vuelta_ok (tiempoVuelta a)
       | EnviarMejor \<Rightarrow> 1 \<le> v_local a \<and> v_local a \<le> vueltas \<and>
            int (length ts) = v_local a \<and> ts \<noteq> [] \<and> mejor a = last ts \<and>
            length bs < length ts \<and> (bs = [] \<longrightarrow> length ts = 1)
       | Guardar \<Rightarrow> int (length ts) = vueltas \<and> (ts \<noteq> [] \<longrightarrow> bs \<noteq> [])
       | Avisar \<Rightarrow> int (length ts) = vueltas \<and> (ts \<noteq> [] \<longrightarrow> bs \<noteq> []) \<and>
            r = \<lparr>AutoID = int i + 1, MejorVuelta = minimo ts, CantidadVueltas = vueltas\<rparr>
       | Fin \<Rightarrow> int (length ts) = vueltas \<and> (ts \<noteq> [] \<longrightarrow> bs \<noteq> []) \<and>
            r = \<lparr>AutoID = int i + 1, MejorVuelta = minimo ts, CantidadVueltas = vueltas\<rparr>))"

definition es_fin :: "auto_st \<Rightarrow> bool" where
  "es_fin a = (pc a = Fin)"

definition inv_estado :: "int \<Rightarrow> nat \<Rightarrow> nat \<Rightarrow> estado \<Rightarrow> bool" where
  "inv_estado vueltas n k st =
     (length (autos st) = n \<and> length (resultados st) = n \<and>
      k \<le> length (cola (canal_enviar st)) \<and> \<not> cerrado (canal_enviar st) \<and>
      done_recibidos st = length (filter es_fin (autos st)) \<and>
      (\<forall>m\<in>set (emitidos k (canal_enviar st)). registro_ok m) \<and>
      (\<forall>i<n. inv_auto vueltas i (autos st ! i) (resultados st ! i)
                (emitidos k (canal_enviar st))))"

definition restante :: "int \<Rightarrow> auto_st \<Rightarrow> nat" where
  "restante vueltas a = (case pc a of
       Bucle \<Rightarrow> 3 * nat (vueltas + 1 - v_local a) + 3
     | EnviarVuelta \<Rightarrow> 3 * nat (vueltas - v_local a) + 5
     | EnviarMejor \<Rightarrow> 3 * nat (vueltas - v_local a) + 4
     | Guardar \<Rightarrow> 2
     | Avisar \<Rightarrow> 1
     | Fin \<Rightarrow> 0)"

section \<open>Channel and ring run: basic facts\<close>


lemma chan_send_abierto:
  "\<not> cerrado ch \<Longrightarrow> chan_send m ch = Inr (ch\<lparr>cola := cola ch @ [m]\<rparr>)"
  by (simp add: chan_send_def)


lemma seguir_Inr [simp]: "seguir (Inr x) f = f x"
  by (simp add: seguir_def)

lemma seguir_Inl [simp]: "seguir (Inl p) f = Inl p"
  by (simp add: seguir_def)

lemma Intn_rango: "0 < n \<Longrightarrow> 0 \<le> fst (Intn n g) \<and> fst (Intn n g) < n"
  by (simp add: Intn_def)

lemma dos_decimales_centesimas: "dos_decimales (of_int k / 100)"
  by (simp add: dos_decimales_def)

lemma sector_loop_abierto:
  "\<not> cerrado ch \<Longrightarrow>
   \<exists>g' ms. sector_loop s sectores v g ch = Inr (g', ch\<lparr>cola := cola ch @ ms\<rparr>)
     \<and> length ms = nat (sectores + 1 - s)
     \<and> (\<forall>m\<in>set ms. es_sector m \<and> tiempo_sector_ok m)"
proof (induction s sectores v g ch rule: sector_loop.induct)
  case (1 s sectores v g ch)
  show ?case
  proof (cases "s \<le> sectores")
    case False
    then have "sector_loop s sectores v g ch = Inr (g, ch\<lparr>cola := cola ch @ []\<rparr>)"
      by simp
    with False show ?thesis by fastforce
  next
    case True
    obtain r g1 where rg: "Intn 2300 g = (r, g1)" by (cases "Intn 2300 g")
    define t :: rat where "t = of_int (r + 1200) / 100"
    define m where "m = mensaje registro mpi (TiempoSector s t v)"
    define ch1 where "ch1 = ch\<lparr>cola := cola ch @ [m]\<rparr>"
    have r: "0 \<le> r \<and> r < 2300" using Intn_rango [of 2300 g] rg by simp
    have abierto: "\<not> cerrado ch1" using "1.prems" by (simp add: ch1_def)
    have paso: "sector_loop s sectores v g ch = sector_loop (s + 1) sectores v g1 ch1"
      using True rg "1.prems"
      by (simp add: chan_send_abierto t_def m_def ch1_def del: sector_loop.simps
            add: sector_loop.simps [of s])
    from "1.IH" [OF True rg [symmetric] refl refl abierto, unfolded t_def [symmetric]]
    obtain g' ms where ih: "sector_loop (s + 1) sectores v g1 ch1 = Inr (g', ch1\<lparr>cola := cola ch1 @ ms\<rparr>)"
      "length ms = nat (sectores + 1 - (s + 1))" "\<forall>m\<in>set ms. es_sector m \<and> tiempo_sector_ok m"
      by blast
    have dd: "dos_decimales t" unfolding t_def by (rule dos_decimales_centesimas)
    have rango: "12 \<le> t \<and> t \<le> 3499 / 100" using r by (simp add: t_def)
    have mok: "es_sector m \<and> tiempo_sector_ok m"
      using dd rango by (simp add: m_def mensaje_def es_sector_def tiempo_sector_ok_def)
    have "sector_loop s sectores v g ch = Inr (g', ch\<lparr>cola := cola ch @ (m # ms)\<rparr>)"
      using paso ih(1) by (simp add: ch1_def)
    moreover have "length (m # ms) = nat (sectores + 1 - s)" using ih(2) True by simp
    moreover have "\<forall>x\<in>set (m # ms). es_sector x \<and> tiempo_sector_ok x" using mok ih(3) by simp
    ultimately show ?thesis by blast
  qed
qed


lemma es_sector_no_cabecera: "es_sector m \<Longrightarrow> \<not> es_cabecera m"
  by (auto simp: es_sector_def es_cabecera_def split: texto.splits)

lemma vuelta_loop_abierto:
  "\<not> cerrado ch \<Longrightarrow>
   \<exists>g' ms. vuelta_loop v vueltas sectores g ch = Inr (g', ch\<lparr>cola := cola ch @ ms\<rparr>)
     \<and> length (filter es_sector ms) = nat (vueltas + 1 - v) * nat sectores
     \<and> length (filter es_cabecera ms) = nat (vueltas + 1 - v)
     \<and> (\<forall>m\<in>set ms. (es_sector m \<or> es_cabecera m) \<and> tiempo_sector_ok m)"
proof (induction v vueltas sectores g ch rule: vuelta_loop.induct)
  case (1 v vueltas sectores g ch)
  show ?case
  proof (cases "v \<le> vueltas")
    case False
    then have "vuelta_loop v vueltas sectores g ch = Inr (g, ch\<lparr>cola := cola ch @ []\<rparr>)"
      by simp
    with False show ?thesis by fastforce
  next
    case True
    define c where "c = mensaje registro mpi (CabeceraVuelta v)"
    define ch1 where "ch1 = ch\<lparr>cola := cola ch @ [c]\<rparr>"
    have a1: "\<not> cerrado ch1" using "1.prems" by (simp add: ch1_def)
    have s1: "chan_send c ch = Inr ch1"
      using "1.prems" by (simp add: chan_send_abierto ch1_def)
    obtain g1 ss where sl: "sector_loop 1 sectores v g ch1 = Inr (g1, ch1\<lparr>cola := cola ch1 @ ss\<rparr>)"
      and ssl: "length ss = nat (sectores + 1 - 1)"
      and sss: "\<forall>m\<in>set ss. es_sector m \<and> tiempo_sector_ok m"
      using sector_loop_abierto [OF a1, of 1 sectores v g] by blast
    define ch2 where "ch2 = ch1\<lparr>cola := cola ch1 @ ss\<rparr>"
    have a2: "\<not> cerrado ch2" using a1 by (simp add: ch2_def)
    have paso: "vuelta_loop v vueltas sectores g ch = vuelta_loop (v + 1) vueltas sectores g1 ch2"
      using True s1 sl
      by (simp add: c_def [symmetric] ch2_def del: vuelta_loop.simps sector_loop.simps
            add: vuelta_loop.simps [of v])
    obtain g' ms where ih:
      "vuelta_loop (v + 1) vueltas sectores g1 ch2 = Inr (g', ch2\<lparr>cola := cola ch2 @ ms\<rparr>)"
      "length (filter es_sector ms) = nat (vueltas + 1 - (v + 1)) * nat sectores"
      "length (filter es_cabecera ms) = nat (vueltas + 1 - (v + 1))"
      "\<forall>m\<in>set ms. (es_sector m \<or> es_cabecera m) \<and> tiempo_sector_ok m"
      using "1.IH" [OF True a2] by blast
    have cc: "es_cabecera c \<and> \<not> es_sector c \<and> tiempo_sector_ok c"
      by (simp add: c_def mensaje_def es_cabecera_def es_sector_def tiempo_sector_ok_def)
    have fs: "filter es_sector ss = ss" using sss by simp
    have fc: "filter es_cabecera ss = []"
      using sss es_sector_no_cabecera by simp
    have suc: "nat (vueltas + 1 - v) = Suc (nat (vueltas + 1 - (v + 1)))" using True by simp
    have "vuelta_loop v vueltas sectores g ch = Inr (g', ch\<lparr>cola := cola ch @ (c # ss @ ms)\<rparr>)"
      using paso ih(1) by (simp add: ch2_def ch1_def)
    moreover have "length (filter es_sector (c # ss @ ms)) = nat (vueltas + 1 - v) * nat sectores"
      using cc fs ih(2) ssl by (simp add: suc)
    moreover have "length (filter es_cabecera (c # ss @ ms)) = nat (vueltas + 1 - v)"
      using cc fc ih(3) by (simp add: suc)
    moreover have "\<forall>m\<in>set (c # ss @ ms). (es_sector m \<or> es_cabecera m) \<and> tiempo_sector_ok m"
      using cc sss ih(4) by auto
    ultimately show ?thesis by blast
  qed
qed


lemma correrMPI_abierto:
  assumes "1 \<le> sectores" and "\<not> cerrado enviar"
  shows "\<exists>g' cuerpo.
      correrMPI sectores vueltas g enviar =
        Inr (g', enviar\<lparr>cola := cola enviar @
               mensaje registro mpi (IniciandoMPI sectores (vueltas_efectivas vueltas)) # cuerpo @
               [mensaje_obj resumen mpi MPIFinalizado, mensaje finalizado mpi sin_texto]\<rparr>)
    \<and> length (filter es_sector cuerpo) = nat (sectores * vueltas_efectivas vueltas)
    \<and> length (filter es_cabecera cuerpo) = nat (vueltas_efectivas vueltas)
    \<and> (\<forall>m\<in>set cuerpo. (es_sector m \<or> es_cabecera m) \<and> tiempo_sector_ok m)"
proof -
  define vv where "vv = vueltas_efectivas vueltas"
  define i where "i = mensaje registro mpi (IniciandoMPI sectores vv)"
  define ch1 where "ch1 = enviar\<lparr>cola := cola enviar @ [i]\<rparr>"
  have vv1: "1 \<le> vv" by (simp add: vv_def vueltas_efectivas_def)
  have a1: "\<not> cerrado ch1" using assms(2) by (simp add: ch1_def)
  obtain g' ms where vl: "vuelta_loop 1 vv sectores g ch1 = Inr (g', ch1\<lparr>cola := cola ch1 @ ms\<rparr>)"
    and ns: "length (filter es_sector ms) = nat (vv + 1 - 1) * nat sectores"
    and nc: "length (filter es_cabecera ms) = nat (vv + 1 - 1)"
    and ok: "\<forall>m\<in>set ms. (es_sector m \<or> es_cabecera m) \<and> tiempo_sector_ok m"
    using vuelta_loop_abierto [OF a1, of 1 vv sectores g] by blast
  define ch2 where "ch2 = ch1\<lparr>cola := cola ch1 @ ms\<rparr>"
  have a2: "\<not> cerrado ch2" using a1 by (simp add: ch2_def)
  have e1: "chan_send i enviar = Inr ch1" using assms(2) by (simp add: chan_send_abierto ch1_def)
  have e2: "chan_send (mensaje_obj resumen mpi MPIFinalizado) ch2 =
      Inr (ch2\<lparr>cola := cola ch2 @ [mensaje_obj resumen mpi MPIFinalizado]\<rparr>)"
    using a2 by (simp add: chan_send_abierto)
  have e3: "chan_send (mensaje finalizado mpi sin_texto)
        (ch2\<lparr>cola := cola ch2 @ [mensaje_obj resumen mpi MPIFinalizado]\<rparr>) =
      Inr (ch2\<lparr>cola := cola ch2 @ [mensaje_obj resumen mpi MPIFinalizado,
             mensaje finalizado mpi sin_texto]\<rparr>)"
    using a2 by (simp add: chan_send_abierto)
  have "correrMPI sectores vueltas g enviar =
      Inr (g', ch2\<lparr>cola := cola ch2 @ [mensaje_obj resumen mpi MPIFinalizado,
             mensaje finalizado mpi sin_texto]\<rparr>)"
    using assms(1) e1 vl [folded ch2_def] e2 e3
    by (simp add: correrMPI_def vueltas_efectivas_def [symmetric]
          vv_def [symmetric] i_def [symmetric] del: vuelta_loop.simps)
  then have "correrMPI sectores vueltas g enviar =
      Inr (g', enviar\<lparr>cola := cola enviar @ i # ms @
             [mensaje_obj resumen mpi MPIFinalizado, mensaje finalizado mpi sin_texto]\<rparr>)"
    by (simp add: ch2_def ch1_def)
  moreover have "length (filter es_sector ms) = nat (sectores * vv)"
    using ns assms(1) vv1 by (simp add: nat_mult_distrib mult.commute)
  moreover have "length (filter es_cabecera ms) = nat vv" using nc by simp
  ultimately show ?thesis using ok unfolding i_def vv_def by blast
qed




lemma no_sector_cabecera_otros:
  "\<not> es_sector (mensaje registro mpi (IniciandoMPI a b))"
  "\<not> es_cabecera (mensaje registro mpi (IniciandoMPI a b))"
  "\<not> es_sector (mensaje_obj resumen mpi MPIFinalizado)"
  "\<not> es_cabecera (mensaje_obj resumen mpi MPIFinalizado)"
  "\<not> es_sector (mensaje finalizado mpi sin_texto)"
  "\<not> es_cabecera (mensaje finalizado mpi sin_texto)"
  by (simp_all add: es_sector_def es_cabecera_def mensaje_def mensaje_obj_def)

section \<open>Ring run: emitted records and sector durations\<close>

text \<open>
  Claim C1, as amended. For \<open>sectores \<ge> 1\<close> and \<open>vueltas \<ge> 1\<close>, a ring run on an open
  channel returns, and the records it has added are, in this order: the start record, a
  body, the summary record and the done record. The body holds exactly
  \<open>sectores * vueltas\<close> per-sector records and exactly \<open>vueltas\<close> lap-header records
  (\<^verbatim>\<open>=== Vuelta v ===\<close>, one at the start of each lap) and nothing else.
\<close>

theorem correrMPI_registros:
  assumes "1 \<le> sectores" and "1 \<le> vueltas" and "\<not> cerrado enviar"
  shows "\<exists>g' ch' cuerpo.
      correrMPI sectores vueltas g enviar = Inr (g', ch')
    \<and> cola ch' = cola enviar @ emitidos (length (cola enviar)) ch'
    \<and> emitidos (length (cola enviar)) ch' =
        mensaje registro mpi (IniciandoMPI sectores vueltas) # cuerpo @
        [mensaje_obj resumen mpi MPIFinalizado, mensaje finalizado mpi sin_texto]
    \<and> length (filter es_sector cuerpo) = nat (sectores * vueltas)
    \<and> length (filter es_cabecera cuerpo) = nat vueltas
    \<and> length cuerpo = nat (sectores * vueltas) + nat vueltas
    \<and> (\<forall>m\<in>set cuerpo. es_sector m \<or> es_cabecera m)"
proof -
  have vv: "vueltas_efectivas vueltas = vueltas"
    using assms(2) by (simp add: vueltas_efectivas_def)
  obtain g' cuerpo where r:
    "correrMPI sectores vueltas g enviar =
        Inr (g', enviar\<lparr>cola := cola enviar @
               mensaje registro mpi (IniciandoMPI sectores vueltas) # cuerpo @
               [mensaje_obj resumen mpi MPIFinalizado, mensaje finalizado mpi sin_texto]\<rparr>)"
    and ns: "length (filter es_sector cuerpo) = nat (sectores * vueltas)"
    and nc: "length (filter es_cabecera cuerpo) = nat vueltas"
    and ok: "\<forall>m\<in>set cuerpo. (es_sector m \<or> es_cabecera m) \<and> tiempo_sector_ok m"
    using correrMPI_abierto [OF assms(1) assms(3), of vueltas g] unfolding vv by blast
  have disj: "\<forall>m\<in>set cuerpo. es_cabecera m = (\<not> es_sector m)"
    using ok es_sector_no_cabecera by blast
  have "length cuerpo = length (filter es_sector cuerpo) + length (filter (\<lambda>m. \<not> es_sector m) cuerpo)"
    by (rule sum_length_filter_compl [symmetric])
  also have "filter (\<lambda>m. \<not> es_sector m) cuerpo = filter es_cabecera cuerpo"
    using disj by (auto intro: filter_cong)
  finally have len: "length cuerpo = nat (sectores * vueltas) + nat vueltas"
    using ns nc by simp
  show ?thesis
    using r ns nc len ok by (simp add: emitidos_def)
qed


theorem correrMPI_registros_witness:
  "(1::int) \<le> 2 \<and> (1::int) \<le> 1 \<and> \<not> cerrado \<lparr>cola = [], cerrado = False\<rparr> \<and>
   (\<exists>g' ch' cuerpo.
      correrMPI 2 1 (sconst 0) \<lparr>cola = [], cerrado = False\<rparr> = Inr (g', ch')
    \<and> cola ch' = cola \<lparr>cola = [], cerrado = False\<rparr> @
         emitidos (length (cola \<lparr>cola = [], cerrado = False\<rparr>)) ch'
    \<and> emitidos (length (cola \<lparr>cola = [], cerrado = False\<rparr>)) ch' =
        mensaje registro mpi (IniciandoMPI 2 1) # cuerpo @
        [mensaje_obj resumen mpi MPIFinalizado, mensaje finalizado mpi sin_texto]
    \<and> length (filter es_sector cuerpo) = nat (2 * 1)
    \<and> length (filter es_cabecera cuerpo) = nat 1
    \<and> length cuerpo = nat (2 * 1) + nat 1
    \<and> (\<forall>m\<in>set cuerpo. es_sector m \<or> es_cabecera m))"
  using correrMPI_registros [of 2 1 "\<lparr>cola = [], cerrado = False\<rparr>" "sconst 0"]
  by simp

text \<open>
  Claim C1 as stated fails: the run of one sector and one lap emits five records, not
  \<open>1 * 1 + 3\<close>, and its second record, the lap header, is neither the start record, a
  per-sector record, the summary record nor the done record.
\<close>

theorem correrMPI_solo_sectores_counterexample:
  "correrMPI 1 1 (sconst 0) \<lparr>cola = [], cerrado = False\<rparr> =
     Inr (sconst 0, \<lparr>cola = [mensaje registro mpi (IniciandoMPI 1 1),
        mensaje registro mpi (CabeceraVuelta 1),
        mensaje registro mpi (TiempoSector 1 12 1),
        mensaje_obj resumen mpi MPIFinalizado,
        mensaje finalizado mpi sin_texto], cerrado = False\<rparr>)
   \<and> es_otro (mensaje registro mpi (CabeceraVuelta 1))
   \<and> length [mensaje registro mpi (IniciandoMPI 1 1),
        mensaje registro mpi (CabeceraVuelta 1),
        mensaje registro mpi (TiempoSector 1 12 1),
        mensaje_obj resumen mpi MPIFinalizado,
        mensaje finalizado mpi sin_texto] \<noteq> nat (1 * 1) + 3"
  by (simp add: correrMPI_def chan_send_def Intn_def es_otro_def es_inicio_def es_sector_def
        es_resumen_def es_finalizado_def mensaje_def)




section \<open>Parallel run: records of one car\<close>

lemma tiempos_de_append: "tiempos_de a (xs @ ys) = tiempos_de a xs @ tiempos_de a ys"
  by (simp add: tiempos_de_def)

lemma mejores_de_append: "mejores_de a (xs @ ys) = mejores_de a xs @ mejores_de a ys"
  by (simp add: mejores_de_def)

lemma tiempos_de_Nil: "tiempos_de a [] = []"
  by (simp add: tiempos_de_def)

lemma mejores_de_Nil: "mejores_de a [] = []"
  by (simp add: mejores_de_def)

lemma tiempos_de_uno: "tiempos_de a [m] = tiempo_de a m"
  by (simp add: tiempos_de_def)

lemma mejores_de_uno: "mejores_de a [m] = nueva_mejor_de a m"
  by (simp add: mejores_de_def)

lemma tiempo_de_vuelta:
  "tiempo_de a (mensaje registro openmp (VueltaAuto b w t)) = (if b = a then [t] else [])"
  by (simp add: tiempo_de_def mensaje_def)

lemma tiempo_de_mejor: "tiempo_de a (mensaje registro openmp (NuevaMejorVuelta b t)) = []"
  by (simp add: tiempo_de_def mensaje_def)

lemma nueva_mejor_de_vuelta: "nueva_mejor_de a (mensaje registro openmp (VueltaAuto b w t)) = []"
  by (simp add: nueva_mejor_de_def mensaje_def)

lemma nueva_mejor_de_mejor:
  "nueva_mejor_de a (mensaje registro openmp (NuevaMejorVuelta b t)) = (if b = a then [t] else [])"
  by (simp add: nueva_mejor_de_def mensaje_def)

lemma minimo_Nil: "minimo [] = 1000000000"
  by (simp add: minimo_def)

lemma minimo_snoc: "minimo (ts @ [t]) = min (minimo ts) t"
  by (simp add: minimo_def)

lemma emitidos_snoc:
  "k \<le> length (cola ch) \<Longrightarrow> emitidos k (ch\<lparr>cola := cola ch @ [m]\<rparr>) = emitidos k ch @ [m]"
  by (simp add: emitidos_def)

lemma tiempo_vuelta_ok_menor: "tiempo_vuelta_ok t \<Longrightarrow> t < 1000000000"
  by (simp add: tiempo_vuelta_ok_def)

lemma tiempo_vuelta_sorteo: "tiempo_vuelta_ok (of_int (fst (Intn 2099 g) + 7500) / 100)"
proof -
  define r where "r = fst (Intn 2099 g)"
  have r: "0 \<le> r \<and> r < 2099" by (simp add: r_def Intn_def)
  have "dos_decimales (of_int (r + 7500) / 100)" by (rule dos_decimales_centesimas)
  moreover have "75 \<le> (of_int (r + 7500) / 100 :: rat) \<and> (of_int (r + 7500) / 100 :: rat) \<le> 9598 / 100"
    using r by simp
  ultimately show ?thesis by (simp add: tiempo_vuelta_ok_def r_def)
qed

lemma minimo_cota: "\<forall>t\<in>set ts. t < 1000000000 \<Longrightarrow> ts \<noteq> [] \<Longrightarrow> minimo ts = Min (set ts)"
proof (induction ts rule: rev_induct)
  case Nil
  then show ?case by simp
next
  case (snoc t ts)
  show ?case
  proof (cases "ts = []")
    case True
    with snoc.prems show ?thesis by (simp add: minimo_def)
  next
    case False
    with snoc have "minimo ts = Min (set ts)" by simp
    with False show ?thesis by (simp add: minimo_snoc min.commute)
  qed
qed

subsection \<open>Steps of the car itself\<close>

lemma inv_auto_bucle_entra:
  assumes "inv_auto V i a r ms" and "pc a = Bucle" and "v_local a \<le> V" and "tiempo_vuelta_ok t"
  shows "inv_auto V i (a\<lparr>pc := EnviarVuelta, tiempoVuelta := t\<rparr>) r ms"
  using assms by (simp add: inv_auto_def Let_def)

lemma inv_auto_bucle_sale:
  assumes "inv_auto V i a r ms" and "pc a = Bucle" and "\<not> v_local a \<le> V"
  shows "inv_auto V i (a\<lparr>pc := Guardar\<rparr>) r ms"
  using assms by (simp add: inv_auto_def Let_def)

lemma inv_auto_enviar_vuelta_mejora:
  assumes "inv_auto V i a r ms" and "pc a = EnviarVuelta" and "tiempoVuelta a < mejor a"
  shows "inv_auto V i (a\<lparr>pc := EnviarMejor, mejor := tiempoVuelta a\<rparr>) r
           (ms @ [mensaje registro openmp (VueltaAuto (int i + 1) (v_local a) (tiempoVuelta a))])"
  using assms
  by (auto simp: inv_auto_def Let_def tiempos_de_append mejores_de_append tiempos_de_uno
        mejores_de_uno tiempo_de_vuelta nueva_mejor_de_vuelta minimo_snoc)

lemma inv_auto_enviar_vuelta_igual:
  assumes "inv_auto V i a r ms" and "pc a = EnviarVuelta" and "\<not> tiempoVuelta a < mejor a"
  shows "inv_auto V i (a\<lparr>pc := Bucle, v_local := v_local a + 1\<rparr>) r
           (ms @ [mensaje registro openmp (VueltaAuto (int i + 1) (v_local a) (tiempoVuelta a))])"
proof -
  have "tiempos_de (int i + 1) ms \<noteq> []"
  proof
    assume "tiempos_de (int i + 1) ms = []"
    then have "mejor a = 1000000000" using assms(1) by (simp add: inv_auto_def Let_def minimo_Nil)
    moreover have "tiempoVuelta a < 1000000000"
      using assms(1,2) by (simp add: inv_auto_def Let_def tiempo_vuelta_ok_menor)
    ultimately show False using assms(3) by simp
  qed
  then show ?thesis
    using assms
    by (auto simp: inv_auto_def Let_def tiempos_de_append mejores_de_append tiempos_de_uno
        mejores_de_uno tiempo_de_vuelta nueva_mejor_de_vuelta minimo_snoc)
qed

lemma hd_last_uno: "length xs = 1 \<Longrightarrow> last xs = hd xs"
  by (cases xs) auto

lemma inv_auto_enviar_mejor:
  assumes "inv_auto V i a r ms" and "pc a = EnviarMejor"
  shows "inv_auto V i (a\<lparr>pc := Bucle, v_local := v_local a + 1\<rparr>) r
           (ms @ [mensaje registro openmp (NuevaMejorVuelta (int i + 1) (mejor a))])"
  using assms
  by (auto simp: inv_auto_def Let_def tiempos_de_append mejores_de_append tiempos_de_uno
        mejores_de_uno tiempo_de_mejor nueva_mejor_de_mejor hd_last_uno)

lemma inv_auto_guardar:
  assumes "inv_auto V i a r ms" and "pc a = Guardar"
  shows "inv_auto V i (a\<lparr>pc := Avisar\<rparr>)
           \<lparr>AutoID = int i + 1, MejorVuelta = mejor a, CantidadVueltas = V\<rparr> ms"
  using assms by (simp add: inv_auto_def Let_def)

lemma inv_auto_avisar:
  assumes "inv_auto V i a r ms" and "pc a = Avisar"
  shows "inv_auto V i (a\<lparr>pc := Fin\<rparr>) r ms"
  using assms by (simp add: inv_auto_def Let_def)

subsection \<open>Steps of another car\<close>

lemma inv_auto_ajeno:
  assumes "inv_auto V j a r ms" and "tiempos_de (int j + 1) ms' = []"
    and "mejores_de (int j + 1) ms' = []"
  shows "inv_auto V j a r (ms @ ms')"
  using assms
  by (simp add: inv_auto_def tiempos_de_append mejores_de_append)

lemma contar_list_update:
  "i < length xs \<Longrightarrow>
   length (filter P (xs[i := y])) + (if P (xs ! i) then 1 else 0) =
   length (filter P xs) + (if P y then 1 else (0::nat))"
proof (induction xs arbitrary: i)
  case Nil
  then show ?case by simp
next
  case (Cons x xs)
  then show ?case by (cases i) auto
qed

lemma emitidos_append:
  "k \<le> length (cola ch) \<Longrightarrow> emitidos k (ch\<lparr>cola := cola ch @ ms\<rparr>) = emitidos k ch @ ms"
  by (simp add: emitidos_def)

lemma inv_estado_paso:
  assumes inv: "inv_estado V n k st" and i: "i < n"
    and au: "autos st' = (autos st)[i := a']"
    and re: "resultados st' = (resultados st)[i := r']"
    and ca: "canal_enviar st' = (canal_enviar st)\<lparr>cola := cola (canal_enviar st) @ ms\<rparr>"
    and ms: "\<forall>m\<in>set ms. registro_ok m"
    and aj: "\<forall>j. j \<noteq> i \<longrightarrow> tiempos_de (int j + 1) ms = [] \<and> mejores_de (int j + 1) ms = []"
    and dn: "done_recibidos st' + (if es_fin (autos st ! i) then 1 else 0) =
             done_recibidos st + (if es_fin a' then 1 else 0)"
    and pr: "inv_auto V i a' r' (emitidos k (canal_enviar st) @ ms)"
  shows "inv_estado V n k st'"
proof -
  have la: "length (autos st) = n" and lr: "length (resultados st) = n"
    and kk: "k \<le> length (cola (canal_enviar st))" and ab: "\<not> cerrado (canal_enviar st)"
    and dr: "done_recibidos st = length (filter es_fin (autos st))"
    and ro: "\<forall>m\<in>set (emitidos k (canal_enviar st)). registro_ok m"
    and ia: "\<forall>j<n. inv_auto V j (autos st ! j) (resultados st ! j) (emitidos k (canal_enviar st))"
    using inv by (simp_all add: inv_estado_def)
  have em: "emitidos k (canal_enviar st') = emitidos k (canal_enviar st) @ ms"
    using kk by (simp add: ca emitidos_append)
  have c1: "length (autos st') = n" using la by (simp add: au)
  have c2: "length (resultados st') = n" using lr by (simp add: re)
  have c3: "k \<le> length (cola (canal_enviar st'))" using kk by (simp add: ca)
  have c4: "\<not> cerrado (canal_enviar st')" using ab by (simp add: ca)
  have c5: "done_recibidos st' = length (filter es_fin (autos st'))"
    using contar_list_update [of i "autos st" es_fin a'] i la dr dn by (simp add: au)
  have c6: "\<forall>m\<in>set (emitidos k (canal_enviar st')). registro_ok m"
    using ro ms by (auto simp: em)
  have c7: "\<forall>j<n. inv_auto V j (autos st' ! j) (resultados st' ! j) (emitidos k (canal_enviar st'))"
  proof (intro allI impI)
    fix j assume j: "j < n"
    show "inv_auto V j (autos st' ! j) (resultados st' ! j) (emitidos k (canal_enviar st'))"
    proof (cases "j = i")
      case True
      then show ?thesis using pr i la lr by (simp add: au re em)
    next
      case False
      then have "autos st' ! j = autos st ! j" "resultados st' ! j = resultados st ! j"
        by (simp_all add: au re)
      moreover have "inv_auto V j (autos st ! j) (resultados st ! j)
          (emitidos k (canal_enviar st) @ ms)"
        using ia j aj False by (intro inv_auto_ajeno) auto
      ultimately show ?thesis by (simp add: em)
    qed
  qed
  show ?thesis
    unfolding inv_estado_def using c1 c2 c3 c4 c5 c6 c7 by blast
qed


lemma registro_ok_vuelta:
  "tiempo_vuelta_ok t \<Longrightarrow> registro_ok (mensaje registro openmp (VueltaAuto b w t))"
  by (simp add: registro_ok_def mensaje_def)

lemma registro_ok_mejor: "registro_ok (mensaje registro openmp (NuevaMejorVuelta b t))"
  by (simp add: registro_ok_def mensaje_def)

lemma paso_inv:
  assumes inv: "inv_estado V n k st"
  shows "\<exists>st'. paso V i st = Inr st' \<and> inv_estado V n k st'"
proof (cases "i < n")
  case False
  then have "paso V i st = Inr st"
    using inv by (simp add: paso_def inv_estado_def)
  then show ?thesis using inv by blast
next
  case True
  define a where "a = autos st ! i"
  define ch where "ch = canal_enviar st"
  have la: "length (autos st) = n" and lr: "length (resultados st) = n"
    and ab: "\<not> cerrado ch"
    and ia: "inv_auto V i a (resultados st ! i) (emitidos k ch)"
    using inv True by (simp_all add: inv_estado_def a_def ch_def)
  have dentro: "\<not> length (autos st) \<le> i" using la True by simp
  have mismo: "(resultados st)[i := resultados st ! i] = resultados st" by simp
  show ?thesis
  proof (cases "pc a")
    case Bucle
    show ?thesis
    proof (cases "v_local a \<le> V")
      case True
      define t :: rat where "t = of_int (fst (Intn 2099 (fuente st)) + 7500) / 100"
      define st' where "st' = poner_auto i (a\<lparr>pc := EnviarVuelta, tiempoVuelta := t\<rparr>)
          (st\<lparr>fuente := snd (Intn 2099 (fuente st))\<rparr>)"
      have p: "paso V i st = Inr st'"
        using dentro Bucle True
        by (simp add: paso_def a_def [symmetric] st'_def t_def split_beta)
      have tok: "tiempo_vuelta_ok t" unfolding t_def by (rule tiempo_vuelta_sorteo)
      have "inv_estado V n k st'"
      proof (rule inv_estado_paso [OF inv \<open>i < n\<close>, where ms = "[]"
              and a' = "a\<lparr>pc := EnviarVuelta, tiempoVuelta := t\<rparr>" and r' = "resultados st ! i"])
        show "inv_auto V i (a\<lparr>pc := EnviarVuelta, tiempoVuelta := t\<rparr>) (resultados st ! i)
            (emitidos k (canal_enviar st) @ [])"
          using inv_auto_bucle_entra [OF ia Bucle True tok] by (simp add: ch_def)
      qed (simp_all add: st'_def poner_auto_def es_fin_def Bucle a_def [symmetric]
            tiempos_de_Nil mejores_de_Nil)
      with p show ?thesis by blast
    next
      case False
      define st' where "st' = poner_auto i (a\<lparr>pc := Guardar\<rparr>) st"
      have p: "paso V i st = Inr st'"
        using dentro Bucle False by (simp add: paso_def a_def [symmetric] st'_def)
      have "inv_estado V n k st'"
      proof (rule inv_estado_paso [OF inv \<open>i < n\<close>, where ms = "[]"
              and a' = "a\<lparr>pc := Guardar\<rparr>" and r' = "resultados st ! i"])
        show "inv_auto V i (a\<lparr>pc := Guardar\<rparr>) (resultados st ! i)
            (emitidos k (canal_enviar st) @ [])"
          using inv_auto_bucle_sale [OF ia Bucle False] by (simp add: ch_def)
      qed (simp_all add: st'_def poner_auto_def es_fin_def Bucle a_def [symmetric]
            tiempos_de_Nil mejores_de_Nil)
      with p show ?thesis by blast
    qed
  next
    case EnviarVuelta
    define m where "m = mensaje registro openmp (VueltaAuto (int i + 1) (v_local a) (tiempoVuelta a))"
    define ch' where "ch' = ch\<lparr>cola := cola ch @ [m]\<rparr>"
    have s: "chan_send m ch = Inr ch'"
      using ab by (simp add: chan_send_abierto ch'_def)
    have tok: "tiempo_vuelta_ok (tiempoVuelta a)"
      using ia EnviarVuelta by (simp add: inv_auto_def Let_def)
    have mok: "\<forall>x\<in>set [m]. registro_ok x" using tok by (simp add: m_def registro_ok_vuelta)
    have aj: "\<forall>j. j \<noteq> i \<longrightarrow> tiempos_de (int j + 1) [m] = [] \<and> mejores_de (int j + 1) [m] = []"
      by (simp add: m_def tiempos_de_uno mejores_de_uno tiempo_de_vuelta nueva_mejor_de_vuelta)
    show ?thesis
    proof (cases "tiempoVuelta a < mejor a")
      case True
      define st' where "st' = poner_auto i (a\<lparr>pc := EnviarMejor, mejor := tiempoVuelta a\<rparr>)
          (st\<lparr>canal_enviar := ch'\<rparr>)"
      have p: "paso V i st = Inr st'"
        using dentro EnviarVuelta True s
        by (simp add: paso_def a_def [symmetric] ch_def [symmetric] m_def [symmetric] st'_def)
      have "inv_estado V n k st'"
      proof (rule inv_estado_paso [OF inv \<open>i < n\<close>, where ms = "[m]"
              and a' = "a\<lparr>pc := EnviarMejor, mejor := tiempoVuelta a\<rparr>"
              and r' = "resultados st ! i"])
        show "inv_auto V i (a\<lparr>pc := EnviarMejor, mejor := tiempoVuelta a\<rparr>) (resultados st ! i)
            (emitidos k (canal_enviar st) @ [m])"
          using inv_auto_enviar_vuelta_mejora [OF ia EnviarVuelta True]
          by (simp add: ch_def m_def)
      qed (use mok aj in \<open>simp_all add: st'_def poner_auto_def es_fin_def EnviarVuelta
            a_def [symmetric] ch'_def ch_def\<close>)
      with p show ?thesis by blast
    next
      case False
      define st' where "st' = poner_auto i (a\<lparr>pc := Bucle, v_local := v_local a + 1\<rparr>)
          (st\<lparr>canal_enviar := ch'\<rparr>)"
      have p: "paso V i st = Inr st'"
        using dentro EnviarVuelta False s
        by (simp add: paso_def a_def [symmetric] ch_def [symmetric] m_def [symmetric] st'_def)
      have "inv_estado V n k st'"
      proof (rule inv_estado_paso [OF inv \<open>i < n\<close>, where ms = "[m]"
              and a' = "a\<lparr>pc := Bucle, v_local := v_local a + 1\<rparr>"
              and r' = "resultados st ! i"])
        show "inv_auto V i (a\<lparr>pc := Bucle, v_local := v_local a + 1\<rparr>) (resultados st ! i)
            (emitidos k (canal_enviar st) @ [m])"
          using inv_auto_enviar_vuelta_igual [OF ia EnviarVuelta False]
          by (simp add: ch_def m_def)
      qed (use mok aj in \<open>simp_all add: st'_def poner_auto_def es_fin_def EnviarVuelta
            a_def [symmetric] ch'_def ch_def\<close>)
      with p show ?thesis by blast
    qed
  next
    case EnviarMejor
    define m where "m = mensaje registro openmp (NuevaMejorVuelta (int i + 1) (mejor a))"
    define ch' where "ch' = ch\<lparr>cola := cola ch @ [m]\<rparr>"
    have s: "chan_send m ch = Inr ch'"
      using ab by (simp add: chan_send_abierto ch'_def)
    have mok: "\<forall>x\<in>set [m]. registro_ok x" by (simp add: m_def registro_ok_mejor)
    have aj: "\<forall>j. j \<noteq> i \<longrightarrow> tiempos_de (int j + 1) [m] = [] \<and> mejores_de (int j + 1) [m] = []"
      by (simp add: m_def tiempos_de_uno mejores_de_uno tiempo_de_mejor nueva_mejor_de_mejor)
    define st' where "st' = poner_auto i (a\<lparr>pc := Bucle, v_local := v_local a + 1\<rparr>)
        (st\<lparr>canal_enviar := ch'\<rparr>)"
    have p: "paso V i st = Inr st'"
      using dentro EnviarMejor s
      by (simp add: paso_def a_def [symmetric] ch_def [symmetric] m_def [symmetric] st'_def)
    have "inv_estado V n k st'"
    proof (rule inv_estado_paso [OF inv \<open>i < n\<close>, where ms = "[m]"
            and a' = "a\<lparr>pc := Bucle, v_local := v_local a + 1\<rparr>"
            and r' = "resultados st ! i"])
      show "inv_auto V i (a\<lparr>pc := Bucle, v_local := v_local a + 1\<rparr>) (resultados st ! i)
          (emitidos k (canal_enviar st) @ [m])"
        using inv_auto_enviar_mejor [OF ia EnviarMejor] by (simp add: ch_def m_def)
    qed (use mok aj in \<open>simp_all add: st'_def poner_auto_def es_fin_def EnviarMejor
          a_def [symmetric] ch'_def ch_def\<close>)
    with p show ?thesis by blast
  next
    case Guardar
    define r' where "r' = \<lparr>AutoID = int i + 1, MejorVuelta = mejor a, CantidadVueltas = V\<rparr>"
    define st' where "st' = poner_auto i (a\<lparr>pc := Avisar\<rparr>)
        (st\<lparr>resultados := (resultados st)[i := r']\<rparr>)"
    have p: "paso V i st = Inr st'"
      using dentro Guardar by (simp add: paso_def a_def [symmetric] st'_def r'_def)
    have "inv_estado V n k st'"
    proof (rule inv_estado_paso [OF inv \<open>i < n\<close>, where ms = "[]"
            and a' = "a\<lparr>pc := Avisar\<rparr>" and r' = r'])
      show "inv_auto V i (a\<lparr>pc := Avisar\<rparr>) r' (emitidos k (canal_enviar st) @ [])"
        using inv_auto_guardar [OF ia Guardar] by (simp add: ch_def r'_def)
    qed (simp_all add: st'_def poner_auto_def es_fin_def Guardar a_def [symmetric]
          tiempos_de_Nil mejores_de_Nil)
    with p show ?thesis by blast
  next
    case Avisar
    define st' where "st' = poner_auto i (a\<lparr>pc := Fin\<rparr>)
        (st\<lparr>done_recibidos := done_recibidos st + 1\<rparr>)"
    have p: "paso V i st = Inr st'"
      using dentro Avisar by (simp add: paso_def a_def [symmetric] st'_def)
    have "inv_estado V n k st'"
    proof (rule inv_estado_paso [OF inv \<open>i < n\<close>, where ms = "[]"
            and a' = "a\<lparr>pc := Fin\<rparr>" and r' = "resultados st ! i"])
      show "inv_auto V i (a\<lparr>pc := Fin\<rparr>) (resultados st ! i) (emitidos k (canal_enviar st) @ [])"
        using inv_auto_avisar [OF ia Avisar] by (simp add: ch_def)
    qed (simp_all add: st'_def poner_auto_def es_fin_def Avisar a_def [symmetric]
          tiempos_de_Nil mejores_de_Nil)
    with p show ?thesis by blast
  next
    case Fin
    have "paso V i st = Inr st"
      using dentro Fin by (simp add: paso_def a_def [symmetric])
    then show ?thesis using inv by blast
  qed
qed

lemma ejecutar_inv:
  "inv_estado V n k st \<Longrightarrow> \<exists>st'. ejecutar V plan st = Inr st' \<and> inv_estado V n k st'"
proof (induction plan arbitrary: st)
  case Nil
  then show ?case by simp
next
  case (Cons i plan)
  obtain st1 where "paso V i st = Inr st1" and "inv_estado V n k st1"
    using paso_inv [OF Cons.prems] by blast
  then show ?case using Cons.IH [of st1] by simp
qed

end
